theory Spec2Isabelle
  imports Main
begin

section \<open>The up command (cli/cmd/up.go)\<close>

subsection \<open>Errors\<close>

text \<open>
  A Go \<open>error\<close> is \<open>nil\<close> or an error value. The controller compares errors with the two
  values \<open>errors.ErrLostConnection\<close> and \<open>errors.ErrCommandFailed\<close>; every other error is
  kept by its text.
\<close>

datatype err = ErrLostConnection | ErrCommandFailed | ErrOther string

type_synonym error = "err option"

subsection \<open>Data\<close>

text \<open>\<open>model.Dev\<close>, as far as up.go reads it: the space, the declared forwards, the command.\<close>

record forward =
  Local :: int
  Remote :: int

record dev =
  Space :: string
  Forward :: "forward list"
  Command :: "string list"

subsection \<open>buildExecCommand\<close>

text \<open>\<open>fmt.Sprintf("%d", n)\<close>: the decimal digits of an int, with a minus sign when negative.\<close>

definition digit_char :: "nat \<Rightarrow> char" where
  "digit_char d = char_of (48 + d)"

fun digits :: "nat \<Rightarrow> string" where
  "digits n = (if n < 10 then [digit_char n] else digits (n div 10) @ [digit_char (n mod 10)])"

declare digits.simps [simp del]

definition fmt_d :: "int \<Rightarrow> string" where
  "fmt_d i = (if i < 0 then CHR ''-'' # digits (nat (- i)) else digits (nat i))"

text \<open>
  \<open>buildExecCommand\<close> returns the argument list of the \<open>okteto exec\<close> subprocess and the
  port. \<open>model.GetAvailablePort\<close> is outside this file: its result is the parameter
  \<open>avail\<close> (\<open>Inl\<close> an error, \<open>Inr\<close> the port). The binary path and the wiring of the
  standard streams do not enter the argument list.
\<close>

definition buildExecCommand :: "err + int \<Rightarrow> dev \<Rightarrow> string \<Rightarrow> string list \<times> int" where
  "buildExecCommand avail d pod =
    (let port = (case avail of Inl e \<Rightarrow> 15000 | Inr p \<Rightarrow> p);
         args = [''exec'', ''--pod'', pod, ''--port'', fmt_d port];
         args = (if Space d = [] then (args @ [''-s'']) @ [Space d] else args);
         args = args @ [''--''];
         args = args @ Command d
     in (args, port))"

subsection \<open>The session state and the collaborators\<close>

text \<open>
  \<open>syncthing.Syncthing\<close>, as far as up.go reads and writes it: the sync type and the two
  local ports that are forwarded to the remote sync engine.
\<close>

record syncthing =
  Type :: string
  RemotePort :: int
  RemoteGUIPort :: int

text \<open>
  The calls that up.go makes on its collaborators (the Kubernetes client, the sync
  engine, the port-forward manager, the exec subprocess, the exec control endpoint, the
  cancel function of the context). The assignment \<open>up.Sy.Type = ...\<close> writes a field of
  the sync engine and is recorded with them.
\<close>

datatype call =
    K8ClientGet
  | SyncthingNew
  | DevModeOn bool
  | GetDevPod
  | SyRun
  | NewPortForwardManager
  | ForwarderAdd int int
  | ForwarderStart string string
  | GoSyMonitor
  | SyWaitForPing
  | SyWaitForCompletion
  | SyOverrideChanges
  | SySetType string
  | SyUpdateConfig
  | SyRestart
  | CmdStart "string list"
  | GoCmdWait
  | HttpGet string
  | ContextCancel
  | ForwarderStop

text \<open>An event is a call with the error it returned (\<open>None\<close> for \<open>nil\<close> and for calls
  that return no error).\<close>

type_synonym event = "call \<times> error"

text \<open>
  The collaborators are outside this file. Their behaviour is a parameter: what each
  call returns is a function of the calls made so far, so that a collaborator may
  answer the same call differently at different times.
\<close>

record world =
  answer :: "event list \<Rightarrow> call \<Rightarrow> error"
  K8Namespace :: "event list \<Rightarrow> string"
  NewSy :: "event list \<Rightarrow> syncthing"
  DevPod :: "event list \<Rightarrow> string"
  GetAvailablePort :: "event list \<Rightarrow> err + int"
  IsConnected :: "event list \<Rightarrow> bool"
  ClusterPort :: int
  GUIPort :: int

text \<open>
  \<open>UpContext\<close>. The four channels have capacity one: \<open>Disconnect\<close> holds a notification
  or not, \<open>Running\<close>, \<open>Exit\<close> and \<open>ErrChan\<close> hold one value or none. \<open>ctxDone\<close> says that
  the current context has been cancelled, \<open>HasForwarder\<close> that \<open>up.Forwarder\<close> is not nil.
  \<open>trace\<close> is not a field of the Go struct: it records the calls made so far.
\<close>

record UpContext =
  Dev :: dev
  Pod :: string
  Namespace :: string
  Sy :: syncthing
  HasForwarder :: bool
  ctxDone :: bool
  Disconnect :: bool
  Running :: "error option"
  Exit :: "error option"
  ErrChan :: "err option"
  trace :: "event list"

definition invoke :: "world \<Rightarrow> call \<Rightarrow> UpContext \<Rightarrow> error \<times> UpContext" where
  "invoke w c up = (let e = answer w (trace up) c in (e, up\<lparr>trace := trace up @ [(c, e)]\<rparr>))"

definition perform :: "call \<Rightarrow> UpContext \<Rightarrow> UpContext" where
  "perform c up = up\<lparr>trace := trace up @ [(c, None)]\<rparr>"

text \<open>\<open>if err := f(); err != nil { return err }\<close> followed by the rest of the function.\<close>

definition andThen :: "error \<times> UpContext \<Rightarrow> (UpContext \<Rightarrow> error \<times> UpContext) \<Rightarrow> error \<times> UpContext" where
  "andThen r k = (case r of (None, up) \<Rightarrow> k up | (Some e, up) \<Rightarrow> (Some e, up))"

subsection \<open>devMode, startSync, forceLocalSyncState, shutdown\<close>

text \<open>\<open>devMode\<close>: each call assigns its result to the context before the error is tested.\<close>

definition devMode :: "world \<Rightarrow> bool \<Rightarrow> UpContext \<Rightarrow> error \<times> UpContext" where
  "devMode w isRetry up =
    andThen (invoke w K8ClientGet (up\<lparr>Namespace := K8Namespace w (trace up)\<rparr>)) (\<lambda>up.
    let up = (if Space (Dev up) \<noteq> [] then up\<lparr>Namespace := Space (Dev up)\<rparr> else up) in
    andThen (invoke w SyncthingNew (up\<lparr>Sy := NewSy w (trace up)\<rparr>)) (\<lambda>up.
    andThen (invoke w (DevModeOn isRetry) up) (\<lambda>up.
    andThen (invoke w GetDevPod (up\<lparr>Pod := DevPod w (trace up)\<rparr>)) (\<lambda>up.
    (None, up)))))"

text \<open>The loop \<open>for _, f := range up.Dev.Forward\<close> of startSync.\<close>

fun addForwards :: "world \<Rightarrow> forward list \<Rightarrow> UpContext \<Rightarrow> error \<times> UpContext" where
  "addForwards w [] up = (None, up)"
| "addForwards w (f # fs) up =
     andThen (invoke w (ForwarderAdd (Local f) (Remote f)) up) (addForwards w fs)"

definition startSync :: "world \<Rightarrow> UpContext \<Rightarrow> error \<times> UpContext" where
  "startSync w up =
    andThen (invoke w SyRun up) (\<lambda>up.
    let up = perform NewPortForwardManager (up\<lparr>HasForwarder := True\<rparr>) in
    andThen (invoke w (ForwarderAdd (RemotePort (Sy up)) (ClusterPort w)) up) (\<lambda>up.
    andThen (invoke w (ForwarderAdd (RemoteGUIPort (Sy up)) (GUIPort w)) up) (\<lambda>up.
    andThen (addForwards w (Forward (Dev up)) up) (\<lambda>up.
    let up = perform (ForwarderStart (Pod up) (Namespace up)) up;
        up = perform GoSyMonitor up in
    andThen (invoke w SyWaitForPing up) (\<lambda>up.
    andThen (invoke w SyWaitForCompletion up) (\<lambda>up.
    (None, up)))))))"

definition forceLocalSyncState :: "world \<Rightarrow> UpContext \<Rightarrow> error \<times> UpContext" where
  "forceLocalSyncState w up =
    andThen (invoke w SyOverrideChanges up) (\<lambda>up.
    andThen (invoke w SyWaitForCompletion up) (\<lambda>up.
    let up = perform (SySetType ''sendreceive'') (up\<lparr>Sy := (Sy up)\<lparr>Type := ''sendreceive''\<rparr>\<rparr>) in
    andThen (invoke w SyUpdateConfig up) (\<lambda>up.
    invoke w SyRestart up)))"

text \<open>
  \<open>shutdown\<close> cancels the context and stops the forwarder when there is one. Its wait
  for the tasks, of at most one second, changes nothing in the context.
\<close>

definition shutdown :: "UpContext \<Rightarrow> UpContext" where
  "shutdown up =
    (let up = perform ContextCancel (up\<lparr>ctxDone := True\<rparr>) in
     if HasForwarder up then perform ForwarderStop up else up)"

subsection \<open>WaitUntilExitOrInterrupt\<close>

text \<open>
  The other tasks write to the channels while the controller waits. A schedule lists,
  in the order in which they happen, the sends of the other tasks and the cases that
  the \<open>select\<close> of the controller takes. A send on a full channel of capacity one blocks
  its task and leaves the channel as it is. Go's \<open>select\<close> takes one of the cases that
  can proceed, chosen at random.
\<close>

datatype pick = PickDone | PickRunning | PickErrChan | PickDisconnect

datatype sched =
    SendRunning error
  | SendDisconnect
  | SendErrChan err
  | CancelContext
  | Select pick

fun deliver :: "sched \<Rightarrow> UpContext \<Rightarrow> UpContext" where
  "deliver (SendRunning e) up = (if Running up = None then up\<lparr>Running := Some e\<rparr> else up)"
| "deliver SendDisconnect up = (if Disconnect up then up else up\<lparr>Disconnect := True\<rparr>)"
| "deliver (SendErrChan e) up = (if ErrChan up = None then up\<lparr>ErrChan := Some e\<rparr> else up)"
| "deliver CancelContext up = up\<lparr>ctxDone := True\<rparr>"
| "deliver (Select p) up = up"

fun ready :: "pick \<Rightarrow> UpContext \<Rightarrow> bool" where
  "ready PickDone up = ctxDone up"
| "ready PickRunning up = (Running up \<noteq> None)"
| "ready PickErrChan up = (ErrChan up \<noteq> None)"
| "ready PickDisconnect up = Disconnect up"

text \<open>
  The result is \<open>None\<close> while the function has not returned: the schedule has ended, or
  it names a case that cannot proceed. Otherwise it is the returned error, the context
  and the rest of the schedule.
\<close>

fun WaitUntilExitOrInterrupt ::
  "world \<Rightarrow> string \<Rightarrow> sched list \<Rightarrow> UpContext \<Rightarrow> (error \<times> UpContext \<times> sched list) option" where
  "WaitUntilExitOrInterrupt w endpoint [] up = None"
| "WaitUntilExitOrInterrupt w endpoint (Select p # sc) up =
    (if \<not> ready p up then None
     else case p of
       PickDone \<Rightarrow> Some (None, snd (invoke w (HttpGet endpoint) up), sc)
     | PickRunning \<Rightarrow>
         (case Running up of
            None \<Rightarrow> None
          | Some err \<Rightarrow>
              if err \<noteq> None then Some (Some ErrCommandFailed, up\<lparr>Running := None\<rparr>, sc)
              else Some (None, up\<lparr>Running := None\<rparr>, sc))
     | PickErrChan \<Rightarrow> WaitUntilExitOrInterrupt w endpoint sc (up\<lparr>ErrChan := None\<rparr>)
     | PickDisconnect \<Rightarrow>
         Some (Some ErrLostConnection,
               snd (invoke w (HttpGet endpoint) (up\<lparr>Disconnect := False\<rparr>)), sc))"
| "WaitUntilExitOrInterrupt w endpoint (s # sc) up =
     WaitUntilExitOrInterrupt w endpoint sc (deliver s up)"

subsection \<open>Activate and RunUp\<close>

text \<open>
  \<open>up.Exit <- err\<close>: the send proceeds when the channel, of capacity one, is empty, and
  blocks otherwise (\<open>None\<close>).
\<close>

definition sendExit :: "error \<Rightarrow> UpContext \<times> sched list \<Rightarrow> (UpContext \<times> sched list) option" where
  "sendExit e r = (case r of (up, sc) \<Rightarrow>
     if Exit up = None then Some (up\<lparr>Exit := Some e\<rparr>, sc) else None)"

text \<open>
  The test of Activate after the wait: the error is not nil, and it is ErrLostConnection,
  or it is ErrCommandFailed while \<open>up.Sy.IsConnected()\<close> is false.
\<close>

definition reconnects :: "world \<Rightarrow> error \<Rightarrow> UpContext \<Rightarrow> bool" where
  "reconnects w prevError up =
    (prevError \<noteq> None \<and>
      (prevError = Some ErrLostConnection \<or>
       prevError = Some ErrCommandFailed \<and> \<not> IsConnected w (trace up)))"

text \<open>
  One iteration of the loop of Activate up to the wait: a fresh context, devMode,
  startSync, forceLocalSyncState, the exec command and its start, the task that sends
  \<open>cmd.Wait()\<close> on \<open>up.Running\<close>. The result is the error of the phase that failed (or
  nil), the context, and the exec endpoint (not used after a failure). The progress
  bars and the messages are left out.
\<close>

definition activation :: "world \<Rightarrow> bool \<Rightarrow> UpContext \<Rightarrow> error \<times> UpContext \<times> string" where
  "activation w attach up =
    (case devMode w attach (up\<lparr>ctxDone := False\<rparr>) of
       (Some e, up) \<Rightarrow> (Some e, up, [])
     | (None, up) \<Rightarrow>
    (case startSync w up of
       (Some e, up) \<Rightarrow> (Some e, up, [])
     | (None, up) \<Rightarrow>
    (case forceLocalSyncState w up of
       (Some e, up) \<Rightarrow> (Some e, up, [])
     | (None, up) \<Rightarrow>
    (case buildExecCommand (GetAvailablePort w (trace up)) (Dev up) (Pod up) of (args, port) \<Rightarrow>
    (case invoke w (CmdStart args) up of
       (Some e, up) \<Rightarrow> (Some e, up, [])
     | (None, up) \<Rightarrow> (None, perform GoCmdWait up, ''http://127.0.0.1:'' @ fmt_d port))))))"

text \<open>
  \<open>Activate\<close>. The loop \<open>for { ... }\<close> may run for ever, so the first argument bounds the
  number of its iterations, and the result is \<open>None\<close> when the function has not returned
  within them or waits for ever. \<open>attach\<close> is false in the first iteration and true in
  every later one. \<open>prevError\<close> only selects a message.
\<close>

fun Activate ::
  "nat \<Rightarrow> world \<Rightarrow> sched list \<Rightarrow> error \<Rightarrow> bool \<Rightarrow> UpContext \<Rightarrow> (UpContext \<times> sched list) option" where
  "Activate 0 w sc prevError attach up = None"
| "Activate (Suc n) w sc prevError attach up =
    (case activation w attach up of
       (Some e, up, endpoint) \<Rightarrow> sendExit (Some e) (up, sc)
     | (None, up, endpoint) \<Rightarrow>
    (case WaitUntilExitOrInterrupt w endpoint sc up of
       None \<Rightarrow> None
     | Some (prevError, up, sc) \<Rightarrow>
         if reconnects w prevError up
         then Activate n w sc prevError True (shutdown up)
         else sendExit None (up, sc)))"

text \<open>
  \<open>RunUp\<close> makes the context, starts Activate as a task and waits in a \<open>select\<close> for an
  interrupt signal or for a value on \<open>up.Exit\<close>. \<open>interrupt\<close> says that a signal is
  pending and the pick names the case that the \<open>select\<close> takes; the result is \<open>None\<close>
  when that case cannot proceed. The deferred shutdown runs after the returned value
  is fixed. Before devMode, \<open>up.Sy\<close> is nil: the record holds zeroes.
\<close>

datatype runup_pick = TakeStop | TakeExit

definition newUpContext :: "dev \<Rightarrow> UpContext" where
  "newUpContext d =
    \<lparr>Dev = d, Pod = [], Namespace = [],
     Sy = \<lparr>Type = [], RemotePort = 0, RemoteGUIPort = 0\<rparr>,
     HasForwarder = False, ctxDone = False, Disconnect = False,
     Running = None, Exit = None, ErrChan = None, trace = []\<rparr>"

definition RunUp :: "nat \<Rightarrow> world \<Rightarrow> sched list \<Rightarrow> bool \<Rightarrow> runup_pick \<Rightarrow> dev \<Rightarrow> error option" where
  "RunUp n w sc interrupt p d =
    (case p of
       TakeStop \<Rightarrow> if interrupt then Some None else None
     | TakeExit \<Rightarrow>
        (case Activate n w sc None False (newUpContext d) of
           None \<Rightarrow> None
         | Some (up, sc') \<Rightarrow>
            (case Exit up of
               None \<Rightarrow> None
             | Some err \<Rightarrow> if err = None then Some None else Some err)))"

subsection \<open>Reading a trace\<close>

text \<open>The events that a function added to the trace, given the context before and after.\<close>

definition newEvents :: "UpContext \<Rightarrow> UpContext \<Rightarrow> event list" where
  "newEvents up up' = drop (length (trace up)) (trace up')"

fun isStart :: "event \<Rightarrow> bool" where
  "isStart (ForwarderStart p n, e) = True"
| "isStart ev = False"

fun isAdd :: "event \<Rightarrow> bool" where
  "isAdd (ForwarderAdd l r, e) = True"
| "isAdd ev = False"

fun isSetType :: "event \<Rightarrow> bool" where
  "isSetType (SySetType t, e) = True"
| "isSetType ev = False"

fun isOverride :: "event \<Rightarrow> bool" where
  "isOverride (SyOverrideChanges, e) = True"
| "isOverride ev = False"

text \<open>
  The bindings that startSync registers, each answered with nil: the sync port, the
  sync GUI port, and one for every declared forward, in this order.
\<close>

definition requiredBindings :: "world \<Rightarrow> UpContext \<Rightarrow> event list" where
  "requiredBindings w up =
     [(ForwarderAdd (RemotePort (Sy up)) (ClusterPort w), None),
      (ForwarderAdd (RemoteGUIPort (Sy up)) (GUIPort w), None)]
     @ map (\<lambda>f. (ForwarderAdd (Local f) (Remote f), None)) (Forward (Dev up))"

text \<open>
  \<open>flipAfterDrain d es\<close>: in the events \<open>es\<close>, every assignment of the sync type comes
  after a WaitForCompletion that returned nil (\<open>d\<close> says that one came before \<open>es\<close>).
\<close>

fun flipAfterDrain :: "bool \<Rightarrow> event list \<Rightarrow> bool" where
  "flipAfterDrain d [] = True"
| "flipAfterDrain d ((SySetType t, e) # es) = (d \<and> flipAfterDrain d es)"
| "flipAfterDrain d ((SyWaitForCompletion, e) # es) = flipAfterDrain (d \<or> e = None) es"
| "flipAfterDrain d (ev # es) = flipAfterDrain d es"

subsection \<open>Sample inputs\<close>

text \<open>A world in which every call succeeds and the sync engine stays connected.\<close>

definition quietWorld :: world where
  "quietWorld =
    \<lparr>answer = (\<lambda>t c. None), K8Namespace = (\<lambda>t. ''dev''),
     NewSy = (\<lambda>t. \<lparr>Type = ''sendonly'', RemotePort = 22100, RemoteGUIPort = 8484\<rparr>),
     DevPod = (\<lambda>t. ''pod-0''), GetAvailablePort = (\<lambda>t. Inr 15001),
     IsConnected = (\<lambda>t. True), ClusterPort = 22000, GUIPort = 8384\<rparr>"

definition sampleDev :: dev where
  "sampleDev = \<lparr>Space = [], Forward = [\<lparr>Local = 8080, Remote = 80\<rparr>], Command = [''sh'']\<rparr>"

text \<open>The context of the sample after a first devMode.\<close>

definition readyContext :: UpContext where
  "readyContext = snd (devMode quietWorld False (newUpContext sampleDev))"

text \<open>The calls of the phases of an activation whose error Activate tests.\<close>

fun isPhaseCall :: "call \<Rightarrow> bool" where
  "isPhaseCall K8ClientGet = True"
| "isPhaseCall SyncthingNew = True"
| "isPhaseCall (DevModeOn r) = True"
| "isPhaseCall GetDevPod = True"
| "isPhaseCall SyRun = True"
| "isPhaseCall (ForwarderAdd l r) = True"
| "isPhaseCall SyWaitForPing = True"
| "isPhaseCall SyWaitForCompletion = True"
| "isPhaseCall SyOverrideChanges = True"
| "isPhaseCall SyUpdateConfig = True"
| "isPhaseCall SyRestart = True"
| "isPhaseCall (CmdStart args) = True"
| "isPhaseCall c = False"

text \<open>The context of the sample when the first activation is complete and the wait begins.\<close>

definition runningContext :: UpContext where
  "runningContext =
    \<lparr>Dev = sampleDev, Pod = ''pod-0'', Namespace = ''dev'',
     Sy = \<lparr>Type = ''sendreceive'', RemotePort = 22100, RemoteGUIPort = 8484\<rparr>,
     HasForwarder = True, ctxDone = False, Disconnect = False,
     Running = None, Exit = None, ErrChan = None,
     trace =
       [(K8ClientGet, None), (SyncthingNew, None), (DevModeOn False, None),
        (GetDevPod, None), (SyRun, None), (NewPortForwardManager, None),
        (ForwarderAdd 22100 22000, None), (ForwarderAdd 8484 8384, None),
        (ForwarderAdd 8080 80, None),
        (ForwarderStart ''pod-0'' ''dev'', None), (GoSyMonitor, None),
        (SyWaitForPing, None), (SyWaitForCompletion, None),
        (SyOverrideChanges, None), (SyWaitForCompletion, None),
        (SySetType ''sendreceive'', None), (SyUpdateConfig, None),
        (SyRestart, None),
        (CmdStart [''exec'', ''--pod'', ''pod-0'', ''--port'', fmt_d 15001, ''-s'', [], ''--'', ''sh''], None),
        (GoCmdWait, None)]\<rparr>"

definition sampleEndpoint :: string where
  "sampleEndpoint = ''http://127.0.0.1:'' @ fmt_d 15001"

text \<open>The command exits with an error, and the select takes its completion.\<close>

definition failedCommandSchedule :: "sched list" where
  "failedCommandSchedule = [SendRunning (Some (ErrOther ''exit status 1'')), Select PickRunning]"

text \<open>A disconnect notification arrives, and the select takes it.\<close>

definition lostSchedule :: "sched list" where
  "lostSchedule = [SendDisconnect, Select PickDisconnect]"

text \<open>The command exits with success, and the select takes its completion.\<close>

definition cleanSchedule :: "sched list" where
  "cleanSchedule = [SendRunning None, Select PickRunning]"

text \<open>The quiet world with the sync engine reporting disconnected.\<close>

definition offlineWorld :: world where
  "offlineWorld = quietWorld\<lparr>IsConnected := (\<lambda>t. False)\<rparr>"

text \<open>A world in which the sync engine starts once and fails to start after that.\<close>

definition retryWorld :: world where
  "retryWorld = quietWorld\<lparr>answer := (\<lambda>t c.
     if c = SyRun \<and> (SyRun, None) \<in> set t then Some (ErrOther ''sync failed'') else None)\<rparr>"

text \<open>
  The context of the sample in which the successful completion of the command and a
  disconnect notification are both waiting in their channels.
\<close>

definition raceContext :: UpContext where
  "raceContext = runningContext\<lparr>Disconnect := True, Running := Some None\<rparr>"

text \<open>The context of the sample after the connection was lost and shutdown has run.\<close>

definition lostContext :: UpContext where
  "lostContext = shutdown (runningContext\<lparr>trace := trace runningContext @ [(HttpGet sampleEndpoint, None)]\<rparr>)"

section \<open>Properties\<close>

subsection \<open>buildExecCommand and the space flag\<close>

text \<open>
  C10. buildExecCommand appends the flag \<open>-s\<close> to the argument list exactly when the Space
  field of the dev configuration is the empty string, with the empty string as the
  flag's value; for a non-empty space the five leading arguments are followed at once
  by \<open>--\<close> and the command, so the flag is left out.
\<close>

theorem buildExecCommand_space_flag:
  "fst (buildExecCommand avail d pod) =
     [''exec'', ''--pod'', pod, ''--port'', fmt_d (snd (buildExecCommand avail d pod))]
     @ (if Space d = '''' then [''-s'', ''''] else [])
     @ [''--''] @ Command d"
  by (simp add: buildExecCommand_def Let_def)

theorem buildExecCommand_space_flag_witness:
  "fst (buildExecCommand (Inr 8080) \<lparr>Space = '''', Forward = [], Command = [''sh'']\<rparr> ''pod-0'')
     = [''exec'', ''--pod'', ''pod-0'', ''--port'', fmt_d 8080, ''-s'', '''', ''--'', ''sh'']
   \<and> fst (buildExecCommand (Inr 8080) \<lparr>Space = ''team'', Forward = [], Command = [''sh'']\<rparr> ''pod-0'')
     = [''exec'', ''--pod'', ''pod-0'', ''--port'', fmt_d 8080, ''--'', ''sh'']"
  using buildExecCommand_space_flag [of "Inr 8080" "\<lparr>Space = '''', Forward = [], Command = [''sh'']\<rparr>" "''pod-0''"]
        buildExecCommand_space_flag [of "Inr 8080" "\<lparr>Space = ''team'', Forward = [], Command = [''sh'']\<rparr>" "''pod-0''"]
  by (simp add: buildExecCommand_def)

subsection \<open>Helper lemmas on calls and traces\<close>

lemma invoke_simp:
  "invoke w c up = (answer w (trace up) c, up\<lparr>trace := trace up @ [(c, answer w (trace up) c)]\<rparr>)"
  by (simp add: invoke_def Let_def)

lemma invoke_eq:
  "invoke w c up = (e, up') \<Longrightarrow> up' = up\<lparr>trace := trace up @ [(c, e)]\<rparr> \<and> e = answer w (trace up) c"
  by (auto simp: invoke_simp)

lemma andThen_None: "andThen r k = (None, up') \<Longrightarrow> \<exists>u. r = (None, u) \<and> k u = (None, up')"
  by (auto simp: andThen_def split: prod.splits option.splits)

lemma addForwards_ok:
  "addForwards w fs up = (None, up') \<Longrightarrow>
   up' = up\<lparr>trace := trace up @ map (\<lambda>f. (ForwarderAdd (Local f) (Remote f), None)) fs\<rparr>"
proof (induction fs arbitrary: up)
  case Nil
  then show ?case by simp
next
  case (Cons f fs)
  from Cons.prems obtain u where
    u: "invoke w (ForwarderAdd (Local f) (Remote f)) up = (None, u)" and r: "addForwards w fs u = (None, up')"
    by (auto dest: andThen_None)
  from invoke_eq[OF u] have "u = up\<lparr>trace := trace up @ [(ForwarderAdd (Local f) (Remote f), None)]\<rparr>" by simp
  with Cons.IH[OF r] show ?case by simp
qed

lemma addForwards_fail:
  "addForwards w fs up = (Some e, up') \<Longrightarrow>
   \<exists>k < length fs. up' = up\<lparr>trace := trace up @ map (\<lambda>f. (ForwarderAdd (Local f) (Remote f), None)) (take k fs)
        @ [(ForwarderAdd (Local (fs ! k)) (Remote (fs ! k)), Some e)]\<rparr>"
proof (induction fs arbitrary: up)
  case Nil
  then show ?case by simp
next
  case (Cons f fs)
  show ?case
  proof (cases "invoke w (ForwarderAdd (Local f) (Remote f)) up")
    case (Pair a u)
    note iv = invoke_eq[OF Pair]
    show ?thesis
    proof (cases a)
      case None
      with Pair Cons.prems have r: "addForwards w fs u = (Some e, up')" by (simp add: andThen_def)
      from Cons.IH[OF r] obtain k where k: "k < length fs"
        "up' = u\<lparr>trace := trace u @ map (\<lambda>f. (ForwarderAdd (Local f) (Remote f), None)) (take k fs)
        @ [(ForwarderAdd (Local (fs ! k)) (Remote (fs ! k)), Some e)]\<rparr>" by blast
      show ?thesis
        apply (rule exI[of _ "Suc k"])
        using k iv None by simp
    next
      case (Some e')
      with Pair Cons.prems have "e' = e" "up' = u" by (simp_all add: andThen_def)
      then show ?thesis
        apply (intro exI[of _ 0])
        using iv Some by simp
    qed
  qed
qed

lemma isStart_adds [simp]: "\<not> list_ex isStart (map (\<lambda>f. (ForwarderAdd (Local f) (Remote f), x)) fs)"
  by (induction fs) auto

lemma isSetType_adds [simp]: "\<not> list_ex isSetType (map (\<lambda>f. (ForwarderAdd (Local f) (Remote f), x)) fs)"
  by (induction fs) auto

lemma isOverride_adds [simp]: "filter isOverride (map (\<lambda>f. (ForwarderAdd (Local f) (Remote f), x)) fs) = []"
  by (induction fs) auto

lemma isSetType_adds_filter [simp]: "filter isSetType (map (\<lambda>f. (ForwarderAdd (Local f) (Remote f), x)) fs) = []"
  by (induction fs) auto

text \<open>What startSync leaves in the trace, by the place where it returns.\<close>

lemma startSync_cases:
  assumes "startSync w up = (r, up')"
  shows "(\<exists>e. r = Some e \<and> up' = up\<lparr>trace := trace up @ [(SyRun, Some e)]\<rparr>)
       \<or> (\<exists>e b k. r = Some e \<and> k \<le> length (requiredBindings w up) \<and>
             up' = up\<lparr>HasForwarder := True,
                      trace := trace up @ [(SyRun, None), (NewPortForwardManager, None)]
                        @ take k (requiredBindings w up) @ [(b, Some e)]\<rparr> \<and> isAdd (b, Some e))
       \<or> (\<exists>tl. up' = up\<lparr>HasForwarder := True,
                      trace := trace up @ [(SyRun, None), (NewPortForwardManager, None)]
                        @ requiredBindings w up
                        @ [(ForwarderStart (Pod up) (Namespace up), None), (GoSyMonitor, None)] @ tl\<rparr> \<and>
             ((\<exists>e. r = Some e \<and> tl = [(SyWaitForPing, Some e)]) \<or>
              (tl = [(SyWaitForPing, None), (SyWaitForCompletion, r)])))"
proof (cases "answer w (trace up) SyRun")
  case (Some e)
  with assms show ?thesis
    by (auto simp: startSync_def andThen_def invoke_simp)
next
  case None
  define u1 where "u1 = up\<lparr>HasForwarder := True, trace := trace up @ [(SyRun, None), (NewPortForwardManager, None)]\<rparr>"
  define a1 where "a1 = ForwarderAdd (RemotePort (Sy up)) (ClusterPort w)"
  define a2 where "a2 = ForwarderAdd (RemoteGUIPort (Sy up)) (GUIPort w)"
  show ?thesis
  proof (cases "answer w (trace u1) a1")
    case (Some e)
    with assms None have "r = Some e" "up' = u1\<lparr>trace := trace u1 @ [(a1, Some e)]\<rparr>"
      by (auto simp: startSync_def andThen_def invoke_simp perform_def u1_def a1_def)
    then have "r = Some e \<and> (0::nat) \<le> length (requiredBindings w up) \<and>
             up' = up\<lparr>HasForwarder := True,
                      trace := trace up @ [(SyRun, None), (NewPortForwardManager, None)]
                        @ take 0 (requiredBindings w up) @ [(a1, Some e)]\<rparr> \<and> isAdd (a1, Some e)"
      by (simp add: u1_def a1_def)
    then show ?thesis by blast
  next
    case A1: None
    define u2 where "u2 = u1\<lparr>trace := trace u1 @ [(a1, None)]\<rparr>"
    show ?thesis
    proof (cases "answer w (trace u2) a2")
      case (Some e)
      with assms None A1 have "r = Some e" "up' = u2\<lparr>trace := trace u2 @ [(a2, Some e)]\<rparr>"
        by (auto simp: startSync_def andThen_def invoke_simp perform_def u1_def a1_def a2_def u2_def)
      then have "r = Some e \<and> (1::nat) \<le> length (requiredBindings w up) \<and>
             up' = up\<lparr>HasForwarder := True,
                      trace := trace up @ [(SyRun, None), (NewPortForwardManager, None)]
                        @ take 1 (requiredBindings w up) @ [(a2, Some e)]\<rparr> \<and> isAdd (a2, Some e)"
        by (simp add: u1_def u2_def a1_def a2_def requiredBindings_def)
      then show ?thesis by blast
    next
      case A2: None
      define u3 where "u3 = u2\<lparr>trace := trace u2 @ [(a2, None)]\<rparr>"
      obtain ra u4 where af: "addForwards w (Forward (Dev up)) u3 = (ra, u4)"
        by (cases "addForwards w (Forward (Dev up)) u3")
      have step: "startSync w up = andThen (addForwards w (Forward (Dev up)) u3) (\<lambda>up.
          let up = perform (ForwarderStart (Pod up) (Namespace up)) up;
              up = perform GoSyMonitor up in
          andThen (invoke w SyWaitForPing up) (\<lambda>up.
          andThen (invoke w SyWaitForCompletion up) (\<lambda>up. (None, up))))"
        using None A1 A2
        by (simp add: startSync_def andThen_def invoke_simp perform_def u1_def a1_def a2_def u2_def u3_def)
      show ?thesis
      proof (cases ra)
        case (Some e)
        let ?fs = "Forward (Dev up)"
        from addForwards_fail[OF af[unfolded Some]] obtain k where kl: "k < length ?fs" and
          k: "u4 = u3\<lparr>trace := trace u3 @ map (\<lambda>f. (ForwarderAdd (Local f) (Remote f), None)) (take k ?fs)
               @ [(ForwarderAdd (Local (?fs ! k)) (Remote (?fs ! k)), Some e)]\<rparr>" by blast
        from assms step af Some have "r = Some e" "up' = u4" by (simp_all add: andThen_def)
        then have "r = Some e \<and> (k + 2) \<le> length (requiredBindings w up) \<and>
             up' = up\<lparr>HasForwarder := True,
                      trace := trace up @ [(SyRun, None), (NewPortForwardManager, None)]
                        @ take (k + 2) (requiredBindings w up)
                        @ [(ForwarderAdd (Local (?fs ! k)) (Remote (?fs ! k)), Some e)]\<rparr>
             \<and> isAdd (ForwarderAdd (Local (?fs ! k)) (Remote (?fs ! k)), Some e)"
          using k kl
          by (simp add: u3_def u2_def u1_def a1_def a2_def requiredBindings_def take_map)
        then show ?thesis by blast
      next
        case RN: None
        from addForwards_ok[OF af[unfolded RN]] have
          u4: "u4 = u3\<lparr>trace := trace u3 @ map (\<lambda>f. (ForwarderAdd (Local f) (Remote f), None)) (Forward (Dev up))\<rparr>" .
        have u4': "u4 = up\<lparr>HasForwarder := True, trace := trace up @ [(SyRun, None), (NewPortForwardManager, None)] @ requiredBindings w up\<rparr>"
          by (simp add: u4 u3_def u2_def u1_def a1_def a2_def requiredBindings_def)
        from assms step af RN have
          "(r, up') = (let up = perform (ForwarderStart (Pod u4) (Namespace u4)) u4;
              up = perform GoSyMonitor up in
            andThen (invoke w SyWaitForPing up) (\<lambda>up.
            andThen (invoke w SyWaitForCompletion up) (\<lambda>up. (None, up))))"
          by (simp add: andThen_def)
        then show ?thesis unfolding u4'
          by (auto simp: Let_def perform_def invoke_simp andThen_def split: option.splits)
      qed
    qed
  qed
qed


lemma isAdd_not_others: "isAdd ev \<Longrightarrow> \<not> isStart ev \<and> \<not> isSetType ev \<and> \<not> isOverride ev"
  by (cases ev rule: isAdd.cases) auto

lemma requiredBindings_all_add: "ev \<in> set (requiredBindings w up) \<Longrightarrow> isAdd ev"
  by (auto simp: requiredBindings_def)

lemma requiredBindings_no_Start: "\<not> list_ex isStart (take k (requiredBindings w up))"
  by (auto simp: list_ex_iff dest!: in_set_takeD requiredBindings_all_add isAdd_not_others)

lemma requiredBindings_no_SetType: "filter isSetType (take k (requiredBindings w up)) = []"
  by (auto simp: filter_empty_conv dest!: in_set_takeD requiredBindings_all_add isAdd_not_others)

lemma requiredBindings_no_Override: "filter isOverride (take k (requiredBindings w up)) = []"
  by (auto simp: filter_empty_conv dest!: in_set_takeD requiredBindings_all_add isAdd_not_others)

subsection \<open>Bindings are registered before the forwarder starts\<close>

text \<open>
  C6. In a run of startSync, either the forwarder is not started and startSync fails,
  or the events of the run are: the start of the sync engine, the new forwarder, the
  binding of the sync port, the binding of the sync GUI port and one binding for every
  declared forward, each of them answered with nil, then the one Start of the forwarder,
  and after it no binding and no second Start.
\<close>

theorem startSync_bindings_before_Start:
  assumes "startSync w up = (r, up')"
  shows "(\<not> list_ex isStart (newEvents up up') \<and> r \<noteq> None) \<or>
         (\<exists>tl. newEvents up up' =
             [(SyRun, None), (NewPortForwardManager, None)] @ requiredBindings w up
             @ [(ForwarderStart (Pod up) (Namespace up), None)] @ tl
           \<and> \<not> list_ex isAdd tl \<and> \<not> list_ex isStart tl)"
  using startSync_cases[OF assms]
proof (elim disjE exE conjE)
  fix e assume "r = Some e" "up' = up\<lparr>trace := trace up @ [(SyRun, Some e)]\<rparr>"
  then show ?thesis by (simp add: newEvents_def)
next
  fix e b k
  assume "r = Some e" "isAdd (b, Some e)"
    "up' = up\<lparr>HasForwarder := True,
                      trace := trace up @ [(SyRun, None), (NewPortForwardManager, None)]
                        @ take k (requiredBindings w up) @ [(b, Some e)]\<rparr>"
  then show ?thesis
    using requiredBindings_no_Start[of k w up] isAdd_not_others[of "(b, Some e)"]
    by (simp add: newEvents_def)
next
  fix tl e
  assume "up' = up\<lparr>HasForwarder := True,
                      trace := trace up @ [(SyRun, None), (NewPortForwardManager, None)]
                        @ requiredBindings w up
                        @ [(ForwarderStart (Pod up) (Namespace up), None), (GoSyMonitor, None)] @ tl\<rparr>"
     "r = Some e" "tl = [(SyWaitForPing, Some e)]"
  then show ?thesis by (simp add: newEvents_def)
next
  fix tl
  assume "up' = up\<lparr>HasForwarder := True,
                      trace := trace up @ [(SyRun, None), (NewPortForwardManager, None)]
                        @ requiredBindings w up
                        @ [(ForwarderStart (Pod up) (Namespace up), None), (GoSyMonitor, None)] @ tl\<rparr>"
     "tl = [(SyWaitForPing, None), (SyWaitForCompletion, r)]"
  then show ?thesis by (simp add: newEvents_def)
qed

text \<open>The sample run.\<close>

lemma devMode_quiet:
  "devMode quietWorld False (newUpContext sampleDev) = (None, 
     (newUpContext sampleDev)\<lparr>Pod := ''pod-0'', Namespace := ''dev'',
        Sy := \<lparr>Type = ''sendonly'', RemotePort = 22100, RemoteGUIPort = 8484\<rparr>,
        trace := [(K8ClientGet, None), (SyncthingNew, None), (DevModeOn False, None), (GetDevPod, None)]\<rparr>)"
  by (simp add: devMode_def andThen_def invoke_simp quietWorld_def newUpContext_def sampleDev_def)

lemma readyContext_simp:
  "readyContext = \<lparr>Dev = sampleDev, Pod = ''pod-0'', Namespace = ''dev'',
     Sy = \<lparr>Type = ''sendonly'', RemotePort = 22100, RemoteGUIPort = 8484\<rparr>,
     HasForwarder = False, ctxDone = False, Disconnect = False,
     Running = None, Exit = None, ErrChan = None,
     trace = [(K8ClientGet, None), (SyncthingNew, None), (DevModeOn False, None), (GetDevPod, None)]\<rparr>"
  unfolding readyContext_def devMode_quiet by (simp add: newUpContext_def)

lemma startSync_quiet:
  "startSync quietWorld readyContext = (None, readyContext\<lparr>HasForwarder := True, trace := trace readyContext @
     [(SyRun, None), (NewPortForwardManager, None), (ForwarderAdd 22100 22000, None),
      (ForwarderAdd 8484 8384, None), (ForwarderAdd 8080 80, None),
      (ForwarderStart ''pod-0'' ''dev'', None), (GoSyMonitor, None),
      (SyWaitForPing, None), (SyWaitForCompletion, None)]\<rparr>)"
  by (simp add: readyContext_simp startSync_def andThen_def invoke_simp perform_def
        quietWorld_def sampleDev_def)

theorem startSync_bindings_before_Start_witness:
  "\<exists>tl. newEvents readyContext (snd (startSync quietWorld readyContext)) =
     [(SyRun, None), (NewPortForwardManager, None), (ForwarderAdd 22100 22000, None),
      (ForwarderAdd 8484 8384, None), (ForwarderAdd 8080 80, None),
      (ForwarderStart ''pod-0'' ''dev'', None)] @ tl \<and> \<not> list_ex isAdd tl"
proof -
  have h: "startSync quietWorld readyContext =
      (fst (startSync quietWorld readyContext), snd (startSync quietWorld readyContext))" by simp
  have rb: "requiredBindings quietWorld readyContext =
      [(ForwarderAdd 22100 22000, None), (ForwarderAdd 8484 8384, None), (ForwarderAdd 8080 80, None)]"
    by (simp add: requiredBindings_def readyContext_simp quietWorld_def sampleDev_def)
  have pn: "Pod readyContext = ''pod-0''" "Namespace readyContext = ''dev''"
    by (simp_all add: readyContext_simp)
  have ok: "fst (startSync quietWorld readyContext) = None" by (simp add: startSync_quiet)
  from startSync_bindings_before_Start[OF h] ok rb pn show ?thesis by auto
qed

subsection \<open>The sync type is flipped once, after a drain\<close>

lemma startSync_quiet_trace:
  assumes "startSync w up = (r, up')"
  shows "\<exists>t. trace up' = trace up @ t \<and> filter isSetType t = [] \<and> filter isOverride t = []
           \<and> Sy up' = Sy up"
  using startSync_cases[OF assms]
proof (elim disjE exE conjE)
  fix e assume "up' = up\<lparr>trace := trace up @ [(SyRun, Some e)]\<rparr>"
  then show ?thesis by simp
next
  fix e b k
  assume "isAdd (b, Some e)"
    "up' = up\<lparr>HasForwarder := True,
                      trace := trace up @ [(SyRun, None), (NewPortForwardManager, None)]
                        @ take k (requiredBindings w up) @ [(b, Some e)]\<rparr>"
  then show ?thesis
    using requiredBindings_no_SetType[of k w up] requiredBindings_no_Override[of k w up]
      isAdd_not_others[of "(b, Some e)"]
    by simp
next
  fix tl e
  assume "up' = up\<lparr>HasForwarder := True,
                      trace := trace up @ [(SyRun, None), (NewPortForwardManager, None)]
                        @ requiredBindings w up
                        @ [(ForwarderStart (Pod up) (Namespace up), None), (GoSyMonitor, None)] @ tl\<rparr>"
     "tl = [(SyWaitForPing, Some e)]"
  then show ?thesis
    using requiredBindings_no_SetType[of "length (requiredBindings w up)" w up]
          requiredBindings_no_Override[of "length (requiredBindings w up)" w up]
    by simp
next
  fix tl
  assume "up' = up\<lparr>HasForwarder := True,
                      trace := trace up @ [(SyRun, None), (NewPortForwardManager, None)]
                        @ requiredBindings w up
                        @ [(ForwarderStart (Pod up) (Namespace up), None), (GoSyMonitor, None)] @ tl\<rparr>"
     "tl = [(SyWaitForPing, None), (SyWaitForCompletion, r)]"
  then show ?thesis
    using requiredBindings_no_SetType[of "length (requiredBindings w up)" w up]
          requiredBindings_no_Override[of "length (requiredBindings w up)" w up]
    by simp
qed

text \<open>What forceLocalSyncState leaves in the trace, by the place where it returns.\<close>

lemma forceLocalSyncState_cases:
  assumes "forceLocalSyncState w up = (r, up')"
  shows "(\<exists>e. r = Some e \<and> up' = up\<lparr>trace := trace up @ [(SyOverrideChanges, Some e)]\<rparr>)
       \<or> (\<exists>e. r = Some e \<and> up' = up\<lparr>trace := trace up @
                  [(SyOverrideChanges, None), (SyWaitForCompletion, Some e)]\<rparr>)
       \<or> (\<exists>e. r = Some e \<and> up' = up\<lparr>Sy := (Sy up)\<lparr>Type := ''sendreceive''\<rparr>, trace := trace up @
                  [(SyOverrideChanges, None), (SyWaitForCompletion, None),
                   (SySetType ''sendreceive'', None), (SyUpdateConfig, Some e)]\<rparr>)
       \<or> (up' = up\<lparr>Sy := (Sy up)\<lparr>Type := ''sendreceive''\<rparr>, trace := trace up @
                  [(SyOverrideChanges, None), (SyWaitForCompletion, None),
                   (SySetType ''sendreceive'', None), (SyUpdateConfig, None), (SyRestart, r)]\<rparr>)"
  using assms
  by (auto simp: forceLocalSyncState_def andThen_def invoke_simp perform_def Let_def split: option.splits)

text \<open>
  C5. In a cycle of startSync followed by forceLocalSyncState, startSync leaves the sync
  engine's type as syncthing.New made it and assigns no type; in forceLocalSyncState
  the assignment of the type sendreceive comes only after a WaitForCompletion that
  returned nil; the cycle calls OverrideChanges exactly once and assigns the type at
  most once, and exactly once, followed by the restart, when forceLocalSyncState
  returns nil.
\<close>

theorem mode_flip_after_drain:
  assumes "startSync w up = (rs, up1)" and "forceLocalSyncState w up1 = (r, up2)"
  shows "Sy up1 = Sy up
       \<and> \<not> list_ex isSetType (newEvents up up1)
       \<and> flipAfterDrain False (newEvents up1 up2)
       \<and> length (filter isOverride (newEvents up up2)) = 1
       \<and> length (filter isSetType (newEvents up up2)) \<le> 1
       \<and> (r = None \<longrightarrow> length (filter isSetType (newEvents up up2)) = 1
              \<and> Type (Sy up2) = ''sendreceive''
              \<and> last (trace up2) = (SyRestart, None))"
proof -
  from startSync_quiet_trace[OF assms(1)] obtain t where
    t: "trace up1 = trace up @ t" "filter isSetType t = []" "filter isOverride t = []" "Sy up1 = Sy up"
    by blast
  have a: "\<not> list_ex isSetType (newEvents up up1)"
    using t by (simp add: newEvents_def list_ex_iff filter_empty_conv)
  from forceLocalSyncState_cases[OF assms(2)] t a show ?thesis
    by (elim disjE exE conjE) (simp_all add: newEvents_def)
qed

lemma forceLocal_quiet:
  "forceLocalSyncState quietWorld (snd (startSync quietWorld readyContext)) =
    (None, (snd (startSync quietWorld readyContext))\<lparr>
       Sy := \<lparr>Type = ''sendreceive'', RemotePort = 22100, RemoteGUIPort = 8484\<rparr>,
       trace := trace (snd (startSync quietWorld readyContext)) @
                  [(SyOverrideChanges, None), (SyWaitForCompletion, None),
                   (SySetType ''sendreceive'', None), (SyUpdateConfig, None), (SyRestart, None)]\<rparr>)"
  unfolding startSync_quiet
  by (simp add: forceLocalSyncState_def andThen_def invoke_simp perform_def readyContext_simp quietWorld_def)

theorem mode_flip_after_drain_witness:
  "Type (Sy (snd (startSync quietWorld readyContext))) = ''sendonly''
   \<and> flipAfterDrain False (newEvents (snd (startSync quietWorld readyContext))
        (snd (forceLocalSyncState quietWorld (snd (startSync quietWorld readyContext)))))
   \<and> length (filter isOverride (newEvents readyContext
        (snd (forceLocalSyncState quietWorld (snd (startSync quietWorld readyContext)))))) = 1
   \<and> length (filter isSetType (newEvents readyContext
        (snd (forceLocalSyncState quietWorld (snd (startSync quietWorld readyContext)))))) = 1
   \<and> Type (Sy (snd (forceLocalSyncState quietWorld (snd (startSync quietWorld readyContext)))))
        = ''sendreceive''"
proof -
  have h1: "startSync quietWorld readyContext = (None, snd (startSync quietWorld readyContext))"
    by (simp add: startSync_quiet)
  have h2: "forceLocalSyncState quietWorld (snd (startSync quietWorld readyContext)) =
     (None, snd (forceLocalSyncState quietWorld (snd (startSync quietWorld readyContext))))"
    by (simp add: forceLocal_quiet)
  have ty: "Type (Sy readyContext) = ''sendonly''" by (simp add: readyContext_simp)
  from mode_flip_after_drain[OF h1 h2] ty show ?thesis by simp
qed

subsection \<open>Helper lemmas on Activate\<close>

lemma devMode_Exit: "devMode w a up = (r, up') \<Longrightarrow> Exit up' = Exit up"
  by (auto simp: devMode_def andThen_def invoke_simp Let_def split: option.splits if_splits)

lemma startSync_Exit: "startSync w up = (r, up') \<Longrightarrow> Exit up' = Exit up"
  by (drule startSync_cases) auto

lemma forceLocalSyncState_Exit: "forceLocalSyncState w up = (r, up') \<Longrightarrow> Exit up' = Exit up"
  by (drule forceLocalSyncState_cases) auto

lemma activation_Exit:
  assumes "activation w a up = (r, up', ep)"
  shows "Exit up' = Exit up"
proof -
  obtain r1 u1 where d: "devMode w a (up\<lparr>ctxDone := False\<rparr>) = (r1, u1)" by force
  obtain r2 u2 where s: "startSync w u1 = (r2, u2)" by force
  obtain r3 u3 where f: "forceLocalSyncState w u2 = (r3, u3)" by force
  have e: "Exit u1 = Exit up" "Exit u2 = Exit u1" "Exit u3 = Exit u2"
    using devMode_Exit[OF d] startSync_Exit[OF s] forceLocalSyncState_Exit[OF f] by simp_all
  from assms e show ?thesis
    by (cases r1; cases r2; cases r3)
       (auto simp: activation_def d s f invoke_simp perform_def split: option.splits prod.splits)
qed

lemma deliver_Exit: "Exit (deliver s up) = Exit up"
  by (cases s) auto

lemma Wait_Exit:
  "WaitUntilExitOrInterrupt w ep sc up = Some (r, up', sc') \<Longrightarrow> Exit up' = Exit up"
proof (induction sc arbitrary: up)
  case Nil
  then show ?case by simp
next
  case (Cons s sc)
  show ?case
  proof (cases s)
    case (Select p)
    with Cons show ?thesis
      by (cases p) (auto simp: invoke_simp split: if_splits option.splits)
  qed (use Cons in \<open>auto simp: deliver_Exit split: if_splits\<close>)
qed

lemma Activate_failed:
  "activation w a up = (Some e, u, ep) \<Longrightarrow> Exit up = None \<Longrightarrow>
   Activate (Suc n) w sc prev a up = Some (u\<lparr>Exit := Some (Some e)\<rparr>, sc)"
  by (frule activation_Exit) (simp add: sendExit_def)

lemma Activate_waited:
  "activation w a up = (None, u, ep) \<Longrightarrow> WaitUntilExitOrInterrupt w ep sc u = Some (r, u', sc') \<Longrightarrow>
   Exit up = None \<Longrightarrow>
   Activate (Suc n) w sc prev a up =
     (if reconnects w r u' then Activate n w sc' r True (shutdown u')
      else Some (u'\<lparr>Exit := Some None\<rparr>, sc'))"
  by (frule activation_Exit, frule Wait_Exit) (simp add: sendExit_def)

lemma shutdown_Exit: "Exit (shutdown up) = Exit up"
  by (simp add: shutdown_def perform_def Let_def)

lemma shutdown_trace:
  "trace (shutdown up) = trace up @ (ContextCancel, None) # (if HasForwarder up then [(ForwarderStop, None)] else [])"
  by (simp add: shutdown_def perform_def Let_def)

subsection \<open>The sample runs\<close>

lemma activation_quiet:
  "activation quietWorld False (newUpContext sampleDev) = (None, runningContext, sampleEndpoint)"
  by (simp add: activation_def devMode_def startSync_def forceLocalSyncState_def andThen_def
      invoke_simp perform_def buildExecCommand_def quietWorld_def newUpContext_def sampleDev_def
      runningContext_def sampleEndpoint_def)

lemma activation_offline:
  "activation offlineWorld False (newUpContext sampleDev) = (None, runningContext, sampleEndpoint)"
  by (simp add: activation_def devMode_def startSync_def forceLocalSyncState_def andThen_def
      invoke_simp perform_def buildExecCommand_def quietWorld_def newUpContext_def sampleDev_def
      runningContext_def sampleEndpoint_def offlineWorld_def)

lemma activation_retry:
  "activation retryWorld False (newUpContext sampleDev) = (None, runningContext, sampleEndpoint)"
  by (simp add: activation_def devMode_def startSync_def forceLocalSyncState_def andThen_def
      invoke_simp perform_def buildExecCommand_def quietWorld_def newUpContext_def sampleDev_def
      runningContext_def sampleEndpoint_def retryWorld_def)

lemma Exit_new: "Exit (newUpContext d) = None"
  by (simp add: newUpContext_def)

lemma wait_failed:
  "WaitUntilExitOrInterrupt w ep failedCommandSchedule runningContext =
     Some (Some ErrCommandFailed, runningContext, [])"
  by (simp add: failedCommandSchedule_def runningContext_def)

lemma wait_clean:
  "WaitUntilExitOrInterrupt w ep cleanSchedule runningContext = Some (None, runningContext, [])"
  by (simp add: cleanSchedule_def runningContext_def)

lemma wait_lost:
  "answer w (trace runningContext) (HttpGet ep) = None \<Longrightarrow>
   WaitUntilExitOrInterrupt w ep lostSchedule runningContext =
     Some (Some ErrLostConnection, runningContext\<lparr>trace := trace runningContext @ [(HttpGet ep, None)]\<rparr>, [])"
  by (simp add: lostSchedule_def runningContext_def invoke_simp)

subsection \<open>A failed command is retried only while the sync engine is disconnected\<close>

text \<open>
  C3. When every phase of an iteration of Activate succeeds and the wait returns
  ErrCommandFailed, Activate shuts down and starts the next iteration, with attach
  true, exactly when IsConnected is false at that moment; when IsConnected is true it
  sends nil on the exit channel and returns, without another iteration.
\<close>

theorem CommandFailed_retried_iff_disconnected:
  assumes "activation w attach up = (None, u, endpoint)"
    and "WaitUntilExitOrInterrupt w endpoint sc u = Some (Some ErrCommandFailed, u', sc')"
    and "Exit up = None"
  shows "Activate (Suc n) w sc prev attach up =
           (if IsConnected w (trace u') then Some (u'\<lparr>Exit := Some None\<rparr>, sc')
            else Activate n w sc' (Some ErrCommandFailed) True (shutdown u'))
       \<and> (reconnects w (Some ErrCommandFailed) u' \<longleftrightarrow> \<not> IsConnected w (trace u'))
       \<and> trace (shutdown u') = trace u' @ (ContextCancel, None) #
            (if HasForwarder u' then [(ForwarderStop, None)] else [])"
  using Activate_waited[OF assms(1,2,3)] by (simp add: reconnects_def shutdown_trace)

lemma IsConnected_quiet: "IsConnected quietWorld t" by (simp add: quietWorld_def)
lemma IsConnected_offline: "\<not> IsConnected offlineWorld t" by (simp add: offlineWorld_def quietWorld_def)

theorem CommandFailed_retried_iff_disconnected_witness:
  "Activate (Suc 0) quietWorld failedCommandSchedule None False (newUpContext sampleDev)
     = Some (runningContext\<lparr>Exit := Some None\<rparr>, [])
   \<and> Activate (Suc 1) offlineWorld failedCommandSchedule None False (newUpContext sampleDev)
     = Activate 1 offlineWorld [] (Some ErrCommandFailed) True (shutdown runningContext)"
  using CommandFailed_retried_iff_disconnected[OF activation_quiet wait_failed Exit_new, of 0 None]
        CommandFailed_retried_iff_disconnected[OF activation_offline wait_failed Exit_new, of 1 None]
  by (simp add: IsConnected_quiet IsConnected_offline)

subsection \<open>A failure of the sync phase ends the session on every attempt\<close>

text \<open>
  C1 (amended). When devMode succeeds and startSync fails, Activate sends the error of
  startSync on the exit channel and returns, in the first iteration (attach false) and
  in every later one (attach true) alike: there is no further iteration.
\<close>

theorem sync_failure_is_terminal:
  assumes "devMode w attach (up\<lparr>ctxDone := False\<rparr>) = (None, u1)"
    and "startSync w u1 = (Some e, u2)"
    and "Exit up = None"
  shows "Activate (Suc n) w sc prev attach up = Some (u2\<lparr>Exit := Some (Some e)\<rparr>, sc)"
proof -
  have "activation w attach up = (Some e, u2, [])"
    using assms(1,2) by (simp add: activation_def)
  from Activate_failed[OF this assms(3)] show ?thesis .
qed

lemma lostContext_simp:
  "lostContext = runningContext\<lparr>ctxDone := True,
     trace := trace runningContext @
       [(HttpGet sampleEndpoint, None), (ContextCancel, None), (ForwarderStop, None)]\<rparr>"
  by (simp add: lostContext_def shutdown_def perform_def runningContext_def)

text \<open>The context of the sample after the second devMode.\<close>

lemma devMode_retry:
  "devMode retryWorld True (lostContext\<lparr>ctxDone := False\<rparr>) =
    (None, runningContext\<lparr>Sy := \<lparr>Type = ''sendonly'', RemotePort = 22100, RemoteGUIPort = 8484\<rparr>,
       trace := trace runningContext @
       [(HttpGet sampleEndpoint, None), (ContextCancel, None), (ForwarderStop, None),
        (K8ClientGet, None), (SyncthingNew, None), (DevModeOn True, None), (GetDevPod, None)]\<rparr>)"
  by (simp add: lostContext_simp devMode_def andThen_def invoke_simp retryWorld_def quietWorld_def
        runningContext_def sampleDev_def)

lemma startSync_retry:
  "startSync retryWorld (runningContext\<lparr>Sy := \<lparr>Type = ''sendonly'', RemotePort = 22100, RemoteGUIPort = 8484\<rparr>,
       trace := trace runningContext @
       [(HttpGet sampleEndpoint, None), (ContextCancel, None), (ForwarderStop, None),
        (K8ClientGet, None), (SyncthingNew, None), (DevModeOn True, None), (GetDevPod, None)]\<rparr>) =
    (Some (ErrOther ''sync failed''),
      runningContext\<lparr>Sy := \<lparr>Type = ''sendonly'', RemotePort = 22100, RemoteGUIPort = 8484\<rparr>,
       trace := trace runningContext @
       [(HttpGet sampleEndpoint, None), (ContextCancel, None), (ForwarderStop, None),
        (K8ClientGet, None), (SyncthingNew, None), (DevModeOn True, None), (GetDevPod, None),
        (SyRun, Some (ErrOther ''sync failed''))]\<rparr>)"
  by (simp add: startSync_def andThen_def invoke_simp retryWorld_def quietWorld_def runningContext_def)

lemma Exit_lost: "Exit lostContext = None"
  by (simp add: lostContext_simp runningContext_def)

theorem sync_failure_is_terminal_witness:
  "Activate (Suc 0) retryWorld [] (Some ErrLostConnection) True lostContext =
     Some (runningContext\<lparr>Sy := \<lparr>Type = ''sendonly'', RemotePort = 22100, RemoteGUIPort = 8484\<rparr>,
       trace := trace runningContext @
       [(HttpGet sampleEndpoint, None), (ContextCancel, None), (ForwarderStop, None),
        (K8ClientGet, None), (SyncthingNew, None), (DevModeOn True, None), (GetDevPod, None),
        (SyRun, Some (ErrOther ''sync failed''))],
       Exit := Some (Some (ErrOther ''sync failed''))\<rparr>, [])"
  using sync_failure_is_terminal[OF devMode_retry startSync_retry Exit_lost, of 0 "[]" "Some ErrLostConnection"]
  by simp

text \<open>
  The claim as it was stated fails: in the sample run the connection is lost after
  a first complete activation, the controller shuts down and reconnects, and the sync
  engine fails to start in this second attempt. Activate then delivers the error on
  the exit channel and returns with the second of its two iterations, the trace ending
  with the failed call: the failure was not retried.
\<close>

lemma reconnects_lost: "reconnects w (Some ErrLostConnection) up"
  by (simp add: reconnects_def)

theorem sync_failure_on_reconnect_counterexample:
  "Activate (Suc (Suc 0)) retryWorld lostSchedule None False (newUpContext sampleDev) =
     Some (runningContext\<lparr>Sy := \<lparr>Type = ''sendonly'', RemotePort = 22100, RemoteGUIPort = 8484\<rparr>,
       trace := trace runningContext @
       [(HttpGet sampleEndpoint, None), (ContextCancel, None), (ForwarderStop, None),
        (K8ClientGet, None), (SyncthingNew, None), (DevModeOn True, None), (GetDevPod, None),
        (SyRun, Some (ErrOther ''sync failed''))],
       Exit := Some (Some (ErrOther ''sync failed''))\<rparr>, [])"
proof -
  have a: "answer retryWorld (trace runningContext) (HttpGet sampleEndpoint) = None"
    by (simp add: retryWorld_def quietWorld_def)
  have "Activate (Suc (Suc 0)) retryWorld lostSchedule None False (newUpContext sampleDev) =
        Activate (Suc 0) retryWorld [] (Some ErrLostConnection) True lostContext"
    using Activate_waited[OF activation_retry wait_lost[OF a] Exit_new, of "Suc 0" None]
    by (simp add: reconnects_lost lostContext_def)
  also have "\<dots> = Some (runningContext\<lparr>Sy := \<lparr>Type = ''sendonly'', RemotePort = 22100, RemoteGUIPort = 8484\<rparr>,
       trace := trace runningContext @
       [(HttpGet sampleEndpoint, None), (ContextCancel, None), (ForwarderStop, None),
        (K8ClientGet, None), (SyncthingNew, None), (DevModeOn True, None), (GetDevPod, None),
        (SyRun, Some (ErrOther ''sync failed''))],
       Exit := Some (Some (ErrOther ''sync failed''))\<rparr>, [])"
  proof -
    have "activation retryWorld True lostContext = (Some (ErrOther ''sync failed''),
       runningContext\<lparr>Sy := \<lparr>Type = ''sendonly'', RemotePort = 22100, RemoteGUIPort = 8484\<rparr>,
       trace := trace runningContext @
       [(HttpGet sampleEndpoint, None), (ContextCancel, None), (ForwarderStop, None),
        (K8ClientGet, None), (SyncthingNew, None), (DevModeOn True, None), (GetDevPod, None),
        (SyRun, Some (ErrOther ''sync failed''))]\<rparr>, [])"
      by (simp add: activation_def devMode_retry startSync_retry)
    from Activate_failed[OF this Exit_lost] show ?thesis .
  qed
  finally show ?thesis .
qed

subsection \<open>A successful completion and a concurrent disconnect\<close>

text \<open>
  C2 (amended). When the completion channel holds a successful (nil) completion, no
  disconnect notification is waiting and none arrives before the wait returns, the
  wait returns nil, whatever else the schedule holds, and the controller does not
  reconnect. (When a disconnect notification is ready in the same instant the select
  may take either case; the sample below takes the disconnect.)
\<close>

theorem successful_completion_without_disconnect:
  assumes "Running up = Some None"
    and "\<not> Disconnect up"
    and "SendDisconnect \<notin> set sc"
    and "WaitUntilExitOrInterrupt w endpoint sc up = Some (r, up', sc')"
  shows "r = None \<and> \<not> reconnects w r up'"
proof -
  have "r = None" using assms
  proof (induction sc arbitrary: up)
    case Nil
    then show ?case by simp
  next
    case (Cons s sc)
    show ?case
    proof (cases s)
      case (Select p)
      show ?thesis
      proof (cases p)
        case PickErrChan
        with Select Cons.prems have
          "WaitUntilExitOrInterrupt w endpoint sc (up\<lparr>ErrChan := None\<rparr>) = Some (r, up', sc')"
          by (simp split: if_splits)
        moreover have "Running (up\<lparr>ErrChan := None\<rparr>) = Some None" "\<not> Disconnect (up\<lparr>ErrChan := None\<rparr>)"
          using Cons.prems by simp_all
        moreover have "SendDisconnect \<notin> set sc" using Cons.prems by simp
        ultimately show ?thesis using Cons.IH by blast
      qed (use Select Cons.prems in \<open>auto split: if_splits\<close>)
    next
      case (SendRunning e)
      with Cons.prems have "WaitUntilExitOrInterrupt w endpoint sc up = Some (r, up', sc')" by simp
      with Cons.IH Cons.prems show ?thesis by simp
    next
      case SendDisconnect
      with Cons.prems show ?thesis by simp
    next
      case (SendErrChan e)
      let ?u = "deliver (SendErrChan e) up"
      from SendErrChan Cons.prems have "WaitUntilExitOrInterrupt w endpoint sc ?u = Some (r, up', sc')" by simp
      moreover have "Running ?u = Some None" "\<not> Disconnect ?u" using Cons.prems by simp_all
      moreover have "SendDisconnect \<notin> set sc" using Cons.prems by simp
      ultimately show ?thesis using Cons.IH by blast
    next
      case CancelContext
      let ?u = "deliver CancelContext up"
      from CancelContext Cons.prems have "WaitUntilExitOrInterrupt w endpoint sc ?u = Some (r, up', sc')" by simp
      moreover have "Running ?u = Some None" "\<not> Disconnect ?u" using Cons.prems by simp_all
      moreover have "SendDisconnect \<notin> set sc" using Cons.prems by simp
      ultimately show ?thesis using Cons.IH by blast
    qed
  qed
  then show ?thesis by (simp add: reconnects_def)
qed

theorem successful_completion_without_disconnect_witness:
  "WaitUntilExitOrInterrupt quietWorld sampleEndpoint [SendErrChan (ErrOther ''port 8080''), Select PickErrChan, Select PickRunning]
      (runningContext\<lparr>Running := Some None\<rparr>) = Some (None, runningContext, [])
   \<and> \<not> reconnects quietWorld None runningContext"
proof -
  have h1: "Running (runningContext\<lparr>Running := Some None\<rparr>) = Some None" by simp
  have h2: "\<not> Disconnect (runningContext\<lparr>Running := Some None\<rparr>)" by (simp add: runningContext_def)
  have h3: "SendDisconnect \<notin> set [SendErrChan (ErrOther ''port 8080''), Select PickErrChan, Select PickRunning]" by simp
  have h4: "WaitUntilExitOrInterrupt quietWorld sampleEndpoint
      [SendErrChan (ErrOther ''port 8080''), Select PickErrChan, Select PickRunning]
      (runningContext\<lparr>Running := Some None\<rparr>) = Some (None, runningContext, [])"
    by (simp add: runningContext_def)
  from successful_completion_without_disconnect[OF h1 h2 h3 h4] h4 show ?thesis by simp
qed

text \<open>
  The claim as it was stated fails: with the nil completion and a disconnect
  notification both ready, both cases of the select can proceed, and when the select
  takes the disconnect case the wait returns ErrLostConnection, on which the
  controller reconnects.
\<close>

theorem completion_and_disconnect_counterexample:
  "Running raceContext = Some None \<and> Disconnect raceContext
   \<and> ready PickRunning raceContext \<and> ready PickDisconnect raceContext
   \<and> WaitUntilExitOrInterrupt quietWorld sampleEndpoint [Select PickDisconnect] raceContext =
       Some (Some ErrLostConnection,
             runningContext\<lparr>Running := Some None,
               trace := trace runningContext @ [(HttpGet sampleEndpoint, None)]\<rparr>, [])
   \<and> reconnects quietWorld (Some ErrLostConnection)
        (runningContext\<lparr>Running := Some None,
               trace := trace runningContext @ [(HttpGet sampleEndpoint, None)]\<rparr>)"
  by (simp add: raceContext_def runningContext_def invoke_simp quietWorld_def reconnects_def)

subsection \<open>What RunUp returns\<close>

lemma isAdd_isPhaseCall: "isAdd (c, x) \<Longrightarrow> isPhaseCall c"
  by (cases c) auto

lemma devMode_failed_last:
  "devMode w a up = (Some e, u) \<Longrightarrow> \<exists>c. last (trace u) = (c, Some e) \<and> isPhaseCall c"
  by (auto simp: devMode_def andThen_def invoke_simp Let_def split: option.splits if_splits)

lemma startSync_failed_last:
  "startSync w up = (Some e, u) \<Longrightarrow> \<exists>c. last (trace u) = (c, Some e) \<and> isPhaseCall c"
  by (drule startSync_cases) (auto dest: isAdd_isPhaseCall)

lemma forceLocalSyncState_failed_last:
  "forceLocalSyncState w up = (Some e, u) \<Longrightarrow> \<exists>c. last (trace u) = (c, Some e) \<and> isPhaseCall c"
  by (drule forceLocalSyncState_cases) auto

lemma activation_failed_last:
  assumes "activation w a up = (Some e, u, ep)"
  shows "\<exists>c. last (trace u) = (c, Some e) \<and> isPhaseCall c"
proof -
  obtain r1 u1 where d: "devMode w a (up\<lparr>ctxDone := False\<rparr>) = (r1, u1)" by force
  obtain r2 u2 where s: "startSync w u1 = (r2, u2)" by force
  obtain r3 u3 where f: "forceLocalSyncState w u2 = (r3, u3)" by force
  show ?thesis
  proof (cases r1)
    case (Some e1)
    with assms d have "e1 = e" "u1 = u" by (simp_all add: activation_def)
    with devMode_failed_last[of w a "up\<lparr>ctxDone := False\<rparr>" e u] d Some show ?thesis by simp
  next
    case N1: None
    show ?thesis
    proof (cases r2)
      case (Some e2)
      with assms d s N1 have "e2 = e" "u2 = u" by (simp_all add: activation_def)
      with startSync_failed_last[of w u1 e u] s Some show ?thesis by simp
    next
      case N2: None
      show ?thesis
      proof (cases r3)
        case (Some e3)
        with assms d s f N1 N2 have "e3 = e" "u3 = u" by (simp_all add: activation_def)
        with forceLocalSyncState_failed_last[of w u2 e u] f Some show ?thesis by simp
      next
        case N3: None
        with assms d s f N1 N2 show ?thesis
          by (auto simp: activation_def invoke_simp split: prod.splits option.splits)
      qed
    qed
  qed
qed

lemma activation_ok_last:
  assumes "activation w a up = (None, u, ep)"
  shows "last (trace u) = (GoCmdWait, None)"
proof -
  obtain r1 u1 where d: "devMode w a (up\<lparr>ctxDone := False\<rparr>) = (r1, u1)" by force
  obtain r2 u2 where s: "startSync w u1 = (r2, u2)" by force
  obtain r3 u3 where f: "forceLocalSyncState w u2 = (r3, u3)" by force
  from assms show ?thesis
    by (cases r1; cases r2; cases r3)
       (auto simp: activation_def d s f invoke_simp perform_def split: option.splits prod.splits)
qed

lemma deliver_trace: "trace (deliver s up) = trace up"
  by (cases s) auto

lemma Wait_trace:
  "WaitUntilExitOrInterrupt w ep sc up = Some (r, up', sc') \<Longrightarrow>
   trace up' = trace up \<or> (\<exists>x. trace up' = trace up @ [(HttpGet ep, x)])"
proof (induction sc arbitrary: up)
  case Nil
  then show ?case by simp
next
  case (Cons s sc)
  show ?case
  proof (cases s)
    case (Select p)
    show ?thesis
    proof (cases p)
      case PickErrChan
      with Select Cons.prems have
        "WaitUntilExitOrInterrupt w ep sc (up\<lparr>ErrChan := None\<rparr>) = Some (r, up', sc')"
        by (simp split: if_splits)
      from Cons.IH[OF this] show ?thesis by simp
    qed (use Select Cons.prems in \<open>auto simp: invoke_simp split: if_splits option.splits\<close>)
  next
    case (SendRunning e)
    with Cons.prems have "WaitUntilExitOrInterrupt w ep sc (deliver s up) = Some (r, up', sc')"
      by (simp del: deliver.simps)
    from Cons.IH[OF this] show ?thesis unfolding deliver_trace .
  next
    case SendDisconnect
    with Cons.prems have "WaitUntilExitOrInterrupt w ep sc (deliver s up) = Some (r, up', sc')"
      by (simp del: deliver.simps)
    from Cons.IH[OF this] show ?thesis unfolding deliver_trace .
  next
    case (SendErrChan e)
    with Cons.prems have "WaitUntilExitOrInterrupt w ep sc (deliver s up) = Some (r, up', sc')"
      by (simp del: deliver.simps)
    from Cons.IH[OF this] show ?thesis unfolding deliver_trace .
  next
    case CancelContext
    with Cons.prems have "WaitUntilExitOrInterrupt w ep sc (deliver s up) = Some (r, up', sc')"
      by (simp del: deliver.simps)
    from Cons.IH[OF this] show ?thesis unfolding deliver_trace .
  qed
qed

text \<open>
  Whenever Activate returns, it has sent on the exit channel either nil, after a wait,
  or the error of the phase call that failed last.
\<close>

lemma Activate_result:
  "Activate n w sc p a up = Some (up', sc') \<Longrightarrow> Exit up = None \<Longrightarrow>
     (Exit up' = Some None \<and> \<not> isPhaseCall (fst (last (trace up'))))
   \<or> (\<exists>e c. Exit up' = Some (Some e) \<and> last (trace up') = (c, Some e) \<and> isPhaseCall c)"
proof (induction n arbitrary: sc p a up)
  case 0
  then show ?case by simp
next
  case (Suc n)
  obtain r u ep where act: "activation w a up = (r, u, ep)" by (cases "activation w a up") auto
  show ?case
  proof (cases r)
    case (Some e)
    from Activate_failed[OF act[unfolded Some] Suc.prems(2), of n sc p] Suc.prems(1)
    have "up' = u\<lparr>Exit := Some (Some e)\<rparr>" by simp
    with activation_failed_last[OF act[unfolded Some]] show ?thesis by auto
  next
    case None
    note act' = act[unfolded None]
    show ?thesis
    proof (cases "WaitUntilExitOrInterrupt w ep sc u")
      case N: None
      with act' Suc.prems(1) show ?thesis by simp
    next
      case (Some x)
      obtain r' u' s' where x: "x = (r', u', s')" by (cases x) auto
      note wt = Some[unfolded x]
      note step = Activate_waited[OF act' wt Suc.prems(2), of n p]
      show ?thesis
      proof (cases "reconnects w r' u'")
        case True
        with step Suc.prems(1) have rec: "Activate n w s' r' True (shutdown u') = Some (up', sc')" by simp
        have "Exit (shutdown u') = None"
          using shutdown_Exit[of u'] Wait_Exit[OF wt] activation_Exit[OF act'] Suc.prems(2) by simp
        from Suc.IH[OF rec this] show ?thesis .
      next
        case False
        with step Suc.prems(1) have up': "up' = u'\<lparr>Exit := Some None\<rparr>" by simp
        from Wait_trace[OF wt] activation_ok_last[OF act'] have "\<not> isPhaseCall (fst (last (trace u')))"
          by auto
        with up' show ?thesis by simp
      qed
    qed
  qed
qed

text \<open>
  C4 (amended). RunUp returns a non-nil error only when its select takes the exit
  channel and the last call of Activate was a call of an activation phase (devMode,
  startSync, forceLocalSyncState, the start of the exec command) that failed, and the
  error is the one that call returned. When the wait of the first attempt ends with an
  outcome on which Activate does not reconnect, ErrCommandFailed with the sync engine
  connected included, RunUp returns nil; it also returns nil when the select takes a
  pending interrupt.
\<close>

theorem RunUp_error_only_from_activation:
  "(RunUp n w sc interrupt p d = Some (Some e) \<longrightarrow>
      p = TakeExit \<and>
      (\<exists>up' sc' c. Activate n w sc None False (newUpContext d) = Some (up', sc') \<and>
         Exit up' = Some (Some e) \<and> last (trace up') = (c, Some e) \<and> isPhaseCall c))
   \<and> (activation w False (newUpContext d) = (None, u, endpoint) \<and>
       WaitUntilExitOrInterrupt w endpoint sc u = Some (r, u', sc') \<and> \<not> reconnects w r u' \<longrightarrow>
       RunUp (Suc n) w sc interrupt TakeExit d = Some None)
   \<and> (interrupt \<longrightarrow> RunUp n w sc interrupt TakeStop d = Some None)"
proof (intro conjI impI)
  assume a: "RunUp n w sc interrupt p d = Some (Some e)"
  show "p = TakeExit" using a by (cases p) (auto simp: RunUp_def split: if_splits)
  then obtain up' sc' where act: "Activate n w sc None False (newUpContext d) = Some (up', sc')"
    and ex: "Exit up' = Some (Some e)"
    using a by (auto simp: RunUp_def split: option.splits if_splits)
  from Activate_result[OF act Exit_new] ex
  show "\<exists>up' sc' c. Activate n w sc None False (newUpContext d) = Some (up', sc') \<and>
         Exit up' = Some (Some e) \<and> last (trace up') = (c, Some e) \<and> isPhaseCall c"
    using act by auto
next
  assume "activation w False (newUpContext d) = (None, u, endpoint) \<and>
       WaitUntilExitOrInterrupt w endpoint sc u = Some (r, u', sc') \<and> \<not> reconnects w r u'"
  then have a: "activation w False (newUpContext d) = (None, u, endpoint)"
    and b: "WaitUntilExitOrInterrupt w endpoint sc u = Some (r, u', sc')" and c: "\<not> reconnects w r u'"
    by simp_all
  from Activate_waited[OF a b Exit_new, of n None] c
  show "RunUp (Suc n) w sc interrupt TakeExit d = Some None"
    by (simp add: RunUp_def)
next
  assume interrupt
  then show "RunUp n w sc interrupt TakeStop d = Some None" by (simp add: RunUp_def)
qed

lemma not_reconnects_quiet: "\<not> reconnects quietWorld (Some ErrCommandFailed) up"
  by (simp add: reconnects_def quietWorld_def)

theorem RunUp_error_only_from_activation_witness:
  "RunUp (Suc 0) quietWorld failedCommandSchedule False TakeExit sampleDev = Some None
   \<and> RunUp (Suc 0) quietWorld failedCommandSchedule True TakeStop sampleDev = Some None"
  using RunUp_error_only_from_activation[where n = 0 and w = quietWorld and sc = failedCommandSchedule
          and interrupt = False and p = TakeExit and d = sampleDev and e = ErrCommandFailed
          and u = runningContext and endpoint = sampleEndpoint and r = "Some ErrCommandFailed"
          and u' = runningContext and sc' = "[]"]
        RunUp_error_only_from_activation[where n = "Suc 0" and w = quietWorld and sc = failedCommandSchedule
          and interrupt = True and p = TakeStop and d = sampleDev and e = ErrCommandFailed
          and u = runningContext and endpoint = sampleEndpoint and r = "Some ErrCommandFailed"
          and u' = runningContext and sc' = "[]"]
        activation_quiet wait_failed[of quietWorld sampleEndpoint] not_reconnects_quiet[of runningContext]
  by simp

text \<open>
  The claim as it was stated fails: in the sample run the command exits with an error
  while the sync engine is connected, the wait returns ErrCommandFailed, Activate does
  not reconnect, and RunUp returns nil.
\<close>

theorem terminal_CommandFailed_counterexample:
  "WaitUntilExitOrInterrupt quietWorld sampleEndpoint failedCommandSchedule runningContext =
     Some (Some ErrCommandFailed, runningContext, [])
   \<and> IsConnected quietWorld (trace runningContext)
   \<and> Activate (Suc 0) quietWorld failedCommandSchedule None False (newUpContext sampleDev) =
       Some (runningContext\<lparr>Exit := Some None\<rparr>, [])
   \<and> RunUp (Suc 0) quietWorld failedCommandSchedule False TakeExit sampleDev = Some None"
proof -
  have a: "Activate (Suc 0) quietWorld failedCommandSchedule None False (newUpContext sampleDev) =
       Some (runningContext\<lparr>Exit := Some None\<rparr>, [])"
    using Activate_waited[OF activation_quiet wait_failed Exit_new, of 0 None]
    by (simp add: not_reconnects_quiet)
  then have "RunUp (Suc 0) quietWorld failedCommandSchedule False TakeExit sampleDev = Some None"
    by (simp add: RunUp_def)
  with a show ?thesis by (simp add: wait_failed IsConnected_quiet)
qed

end
